theory Spec2Isabelle
  imports Complex_Main
begin

section \<open>Data model\<close>

text \<open>
  The documents of the expense reimbursement backend, as the route handlers see them.
  Object ids are natural numbers, JavaScript numbers (amounts, percentages, thresholds)
  are real numbers, dates are natural numbers (a clock value), and role names are
  strings, since the policy compares them with freely configured strings such as CFO.
\<close>

type_synonym oid = nat

datatype expense_status = Pending | Approved | Rejected | PartiallyApproved

datatype step_status = StepPending | StepApproved | StepRejected | StepSkipped

datatype history_action = ActApproved | ActRejected

text \<open>One entry of \<open>approvalFlow\<close> (Expense schema).\<close>

record step =
  approver :: oid
  order :: nat
  status :: step_status
  comments :: "string option"
  timestamp :: "nat option"

text \<open>One entry of \<open>approvalHistory\<close> (Expense schema).\<close>

record history_entry =
  h_approver :: oid
  h_action :: history_action
  h_comments :: string
  h_timestamp :: nat

text \<open>
  The Expense document. The record holds the fields of the aggregate that the handlers
  read or write; the receipt and OCR attachments and the createdAt/updatedAt stamps of
  the schema (updatedAt is refreshed by the pre-save hook on every save) are not part
  of the record.
\<close>

record expense =
  employee :: oid
  company :: oid
  amount :: real
  originalCurrency :: string
  convertedAmount :: real
  companyCurrency :: string
  category :: string
  description :: string
  expenseDate :: nat
  exp_status :: expense_status
  currentApprover :: "oid option"
  approvalHistory :: "history_entry list"
  approvalFlow :: "step list"

text \<open>The Company document: \<open>settings.approvalRules\<close> and \<open>settings.thresholds\<close>.\<close>

record percentage_rule =
  pr_enabled :: bool
  pr_percentage :: real

record specific_approver_rule =
  sr_enabled :: bool
  sr_approverRole :: string

record hybrid_rule =
  hr_enabled :: bool
  hr_percentage :: real
  hr_specificRole :: string

record approval_rules =
  percentageRule :: percentage_rule
  specificApproverRule :: specific_approver_rule
  hybridRule :: hybrid_rule

record thresholds_t =
  managerApproval :: real
  financeApproval :: real
  directorApproval :: real

record settings_t =
  approvalRules :: approval_rules
  thresholds :: thresholds_t

record company_doc =
  cid :: oid
  currency :: string
  settings :: settings_t

text \<open>The User document, as far as the workflow reads it.\<close>

record user =
  uid :: oid
  u_company :: oid
  role :: string
  manager :: "oid option"
  isManagerApprover :: bool

text \<open>
  The outcomes of a handler that are not a success: 400 with a validation error array,
  404, 403, 400 with a state message (no pending approval for the user, or an update of
  a finalised expense), and the 500 of the handler's catch block.
\<close>

datatype error = ValidationError | NotFound | AuthorizationError | StateError | ServerError

text \<open>
  An optional field of a JSON request body after its validator: absent, present but
  rejected by the validator, or present with a value. The amount of an update is either
  a JSON number or a numeric string; \<open>if (amount)\<close> is false for the number 0 and true
  for every numeric string.
\<close>

datatype 'a field = Absent | Malformed | Given 'a

datatype amount_field = AmountAbsent | AmountMalformed | AmountNumber real | AmountString real

fun amount_truthy :: "amount_field \<Rightarrow> bool" where
  "amount_truthy (AmountNumber a) = (a \<noteq> 0)"
| "amount_truthy (AmountString a) = True"
| "amount_truthy _ = False"

fun amount_value :: "amount_field \<Rightarrow> real" where
  "amount_value (AmountNumber a) = a"
| "amount_value (AmountString a) = a"
| "amount_value _ = 0"

section \<open>Array and string helpers\<close>

text \<open>
  \<open>Array.prototype.find\<close> is \<open>List.find\<close> and \<open>some\<close> is \<open>list_ex\<close>. Where a handler
  assigns to the element that \<open>find\<close> returned, the model needs the position of that
  element: \<open>find_pos\<close> is the index of the first element that satisfies the predicate.
\<close>

fun find_pos :: "('a \<Rightarrow> bool) \<Rightarrow> 'a list \<Rightarrow> nat option" where
  "find_pos P [] = None"
| "find_pos P (x # xs) = (if P x then Some 0 else map_option Suc (find_pos P xs))"

text \<open>
  The \<open>trim: true\<close> setter of the schema (description, history comments) applies
  \<open>String.prototype.trim\<close>. A \<open>char\<close> is a code unit below 256; the white space and
  line terminators of JavaScript in that range are tab, line feed, vertical tab, form
  feed, carriage return, space and the no-break space.
\<close>

definition is_space :: "char \<Rightarrow> bool" where
  "is_space ch =
     (ch \<in> set [CHR '' '', CHR 0x09, CHR 0x0A, CHR 0x0B, CHR 0x0C, CHR 0x0D, CHR 0xA0])"

definition trim :: "string \<Rightarrow> string" where
  "trim s = rev (dropWhile is_space (rev (dropWhile is_space s)))"

section \<open>Rule engine (Expense model methods)\<close>

text \<open>
  The callbacks that the model methods and the approval handlers pass to \<open>find\<close> and
  \<open>some\<close>: an approved step whose (populated) approver has role \<open>r\<close>; a pending step
  of user \<open>user_id\<close>; a pending step whose order is greater than \<open>n\<close>.
\<close>

definition approved_with_role :: "(oid \<Rightarrow> string) \<Rightarrow> string \<Rightarrow> step \<Rightarrow> bool" where
  "approved_with_role roles r f = (roles (approver f) = r \<and> status f = StepApproved)"

definition pending_for :: "oid \<Rightarrow> step \<Rightarrow> bool" where
  "pending_for user_id f = (approver f = user_id \<and> status f = StepPending)"

definition pending_after :: "nat \<Rightarrow> step \<Rightarrow> bool" where
  "pending_after n f = (status f = StepPending \<and> order f > n)"

text \<open>
  \<open>getApprovalPercentage\<close>: the share of approved steps, 0 for an empty flow.
\<close>

definition getApprovalPercentage :: "step list \<Rightarrow> real" where
  "getApprovalPercentage flow =
     (let totalApprovers = length flow;
          approvedCount = length (filter (\<lambda>f. status f = StepApproved) flow)
      in if totalApprovers > 0 then (real approvedCount / real totalApprovers) * 100 else 0)"

text \<open>
  \<open>checkApprovalCriteria\<close>. The handler calls it on a document whose approvers are
  populated with their role; \<open>roles\<close> is that join (every user of an approval flow
  stays in the User collection: deleting a user only clears isActive).
\<close>

definition checkApprovalCriteria :: "(oid \<Rightarrow> string) \<Rightarrow> company_doc \<Rightarrow> step list \<Rightarrow> bool" where
  "checkApprovalCriteria roles cdoc flow =
     (let rules = approvalRules (settings cdoc);
          approvalPercentage = getApprovalPercentage flow
      in if pr_enabled (percentageRule rules) \<and>
            approvalPercentage \<ge> pr_percentage (percentageRule rules) then True
         else if sr_enabled (specificApproverRule rules) \<and>
            List.find (approved_with_role roles (sr_approverRole (specificApproverRule rules)))
              flow \<noteq> None then True
         else if hr_enabled (hybridRule rules) \<and>
            (list_ex (approved_with_role roles (hr_specificRole (hybridRule rules))) flow \<or>
             approvalPercentage \<ge> hr_percentage (hybridRule rules)) then True
         else False)"


text \<open>The rules of a company document, \<open>company.settings.approvalRules\<close>.\<close>

definition rules_of :: "company_doc \<Rightarrow> approval_rules" where
  "rules_of cdoc = approvalRules (settings cdoc)"

section \<open>Currency conversion (utils/currency.js)\<close>

text \<open>
  \<open>getCurrencyRates\<close> fetches a rate table from an external service (and caches it);
  it enters as a parameter: the table for a base currency, or \<open>None\<close> when the fetch
  throws. \<open>convertCurrency\<close> throws (\<open>None\<close>) when the rate is missing or zero.
\<close>

type_synonym rate_source = "string \<Rightarrow> (string \<rightharpoonup> real) option"

definition convertCurrency :: "rate_source \<Rightarrow> real \<Rightarrow> string \<Rightarrow> string \<Rightarrow> real option" where
  "convertCurrency getCurrencyRates amt fromCurrency toCurrency =
     (if fromCurrency = toCurrency then Some amt
      else case getCurrencyRates fromCurrency of
             None \<Rightarrow> None
           | Some rates \<Rightarrow>
               (case rates toCurrency of
                  None \<Rightarrow> None
                | Some rate \<Rightarrow> if rate = 0 then None else Some (amt * rate)))"

section \<open>Approval chain builder (setupApprovalFlow)\<close>

text \<open>
  The User collection is a list in natural order; \<open>User.findById\<close> and \<open>User.findOne\<close>
  return the first document that matches.
\<close>

definition findById :: "user list \<Rightarrow> oid \<Rightarrow> user option" where
  "findById users i = List.find (\<lambda>u. uid u = i) users"

definition findOne :: "(user \<Rightarrow> bool) \<Rightarrow> user list \<Rightarrow> user option" where
  "findOne query users = List.find query users"

definition new_step :: "oid \<Rightarrow> nat \<Rightarrow> step" where
  "new_step a n = \<lparr>approver = a, order = n, status = StepPending, comments = None, timestamp = None\<rparr>"

text \<open>The manager block: the flow and \<open>currentApprover\<close> after it.\<close>

definition manager_block :: "user list \<Rightarrow> user \<Rightarrow> step list \<times> oid option" where
  "manager_block users usr =
     (case manager usr of
        None \<Rightarrow> ([], None)
      | Some m \<Rightarrow>
          if isManagerApprover usr then
            (case findById users m of
               None \<Rightarrow> ([], None)
             | Some mgr \<Rightarrow> ([new_step (uid mgr) 1], Some (uid mgr)))
          else ([], None))"

text \<open>
  The finance and the director block have the same shape: above the threshold, look a
  candidate up, and push it at the next order unless it is the current approver. The
  state is the flow, \<open>currentApprover\<close> and the counter \<open>order\<close>.
\<close>

definition threshold_block ::
  "bool \<Rightarrow> user option \<Rightarrow> step list \<times> oid option \<times> nat \<Rightarrow> step list \<times> oid option \<times> nat" where
  "threshold_block reached candidate st =
     (case st of (flow, cur, ord) \<Rightarrow>
        if reached then
          (case candidate of
             None \<Rightarrow> (flow, cur, ord)
           | Some c \<Rightarrow>
               if cur \<noteq> Some (uid c)
               then (flow @ [new_step (uid c) ord], (if cur = None then Some (uid c) else cur), ord + 1)
               else (flow, cur, ord))
        else (flow, cur, ord))"

definition finance_query :: "company_doc \<Rightarrow> user \<Rightarrow> bool" where
  "finance_query cdoc u = (u_company u = cid cdoc \<and> role u = ''manager'' \<and> isManagerApprover u)"

definition admin_query :: "company_doc \<Rightarrow> user \<Rightarrow> bool" where
  "admin_query cdoc u = (u_company u = cid cdoc \<and> role u = ''admin'')"

text \<open>
  The flow and \<open>currentApprover\<close> before the fallback (\<open>If no approvers found\<close>);
  \<open>amt\<close> is \<open>expense.convertedAmount\<close>.
\<close>

definition chain_before_fallback ::
  "user list \<Rightarrow> real \<Rightarrow> user \<Rightarrow> company_doc \<Rightarrow> step list \<times> oid option" where
  "chain_before_fallback users amt usr cdoc =
     (let (flow1, cur1) = manager_block users usr;
          thr = thresholds (settings cdoc);
          ord1 = length flow1 + 1;
          st2 = threshold_block (amt \<ge> financeApproval thr)
                  (findOne (finance_query cdoc) users) (flow1, cur1, ord1);
          (flow3, cur3, ord3) = threshold_block (amt \<ge> directorApproval thr)
                  (findOne (admin_query cdoc) users) st2
      in (flow3, cur3))"

definition setupApprovalFlow :: "user list \<Rightarrow> expense \<Rightarrow> user \<Rightarrow> company_doc \<Rightarrow> expense" where
  "setupApprovalFlow users expense usr cdoc =
     (let (flow3, cur3) = chain_before_fallback users (convertedAmount expense) usr cdoc;
          (flow4, cur4) =
            (if length flow3 = 0 then
               (case findOne (admin_query cdoc) users of
                  None \<Rightarrow> (flow3, cur3)
                | Some adm \<Rightarrow> (flow3 @ [new_step (uid adm) 1], Some (uid adm)))
             else (flow3, cur3))
      in expense\<lparr>approvalFlow := flow4, currentApprover := cur4\<rparr>)"

section \<open>Expense routes: create and update\<close>

definition categories :: "string list" where
  "categories = [''travel'', ''meals'', ''accommodation'', ''transport'', ''office_supplies'',
                 ''entertainment'', ''other'']"

text \<open>
  The body of \<open>POST /api/expenses\<close>, a multipart form whose values are strings.
  \<open>b_amount\<close> and \<open>b_expenseDate\<close> are \<open>None\<close> when the field is missing or fails its
  validator (isNumeric, isISO8601).
\<close>

record create_body =
  b_amount :: "real option"
  b_originalCurrency :: string
  b_category :: string
  b_description :: string
  b_expenseDate :: "nat option"

definition create_valid :: "create_body \<Rightarrow> bool" where
  "create_valid body =
     (b_amount body \<noteq> None \<and> b_originalCurrency body \<noteq> [] \<and>
      b_category body \<in> set categories \<and> b_description body \<noteq> [] \<and>
      b_expenseDate body \<noteq> None)"

text \<open>
  \<open>expense.save()\<close> runs the schema validators: \<open>amount\<close> has \<open>min: 0\<close>, and the
  trimmed \<open>description\<close> is required. A failure is thrown into the catch block.
\<close>

definition save_valid :: "expense \<Rightarrow> bool" where
  "save_valid e = (amount e \<ge> 0 \<and> description e \<noteq> [])"

text \<open>
  The handler of \<open>POST /api/expenses\<close>, after the auth middleware: \<open>company_found\<close> is the
  result of \<open>Company.findById\<close>, \<open>usr\<close> is \<open>req.user\<close>. The result is the saved document
  or the error response. The receipt block stores the upload and the OCR data, which the
  record does not hold; its auto-fill assignments are guarded by \<open>!amount\<close>,
  \<open>!expenseDate\<close> and \<open>!description\<close>, which are false for a body that passed validation.
\<close>

definition create_expense ::
  "rate_source \<Rightarrow> user list \<Rightarrow> company_doc option \<Rightarrow> user \<Rightarrow> create_body \<Rightarrow> error + expense" where
  "create_expense getCurrencyRates users company_found usr body =
     (if create_valid body then
        (case (b_amount body, b_expenseDate body) of
           (Some amt, Some date) \<Rightarrow>
            (case company_found of
               None \<Rightarrow> Inl NotFound
             | Some cdoc \<Rightarrow>
                 (case convertCurrency getCurrencyRates amt (b_originalCurrency body) (currency cdoc) of
                    None \<Rightarrow> Inl ServerError
                  | Some conv \<Rightarrow>
                      let expense = \<lparr>employee = uid usr, company = cid cdoc, amount = amt,
                                     originalCurrency = b_originalCurrency body,
                                     convertedAmount = conv, companyCurrency = currency cdoc,
                                     category = b_category body,
                                     description = trim (b_description body),
                                     expenseDate = date, exp_status = Pending,
                                     currentApprover = None, approvalHistory = [],
                                     approvalFlow = []\<rparr>;
                          expense' = setupApprovalFlow users expense usr cdoc
                      in if save_valid expense' then Inr expense' else Inl ServerError))
         | _ \<Rightarrow> Inl ValidationError)
      else Inl ValidationError)"

text \<open>The body of \<open>PUT /api/expenses/:id\<close>: every field is optional.\<close>

record update_body =
  ub_amount :: amount_field
  ub_category :: "string option"
  ub_description :: "string option"
  ub_expenseDate :: "nat field"

definition update_valid :: "update_body \<Rightarrow> bool" where
  "update_valid body =
     (ub_amount body \<noteq> AmountMalformed \<and>
      (case ub_category body of None \<Rightarrow> True | Some c \<Rightarrow> c \<in> set categories) \<and>
      ub_description body \<noteq> Some [] \<and>
      ub_expenseDate body \<noteq> Malformed)"

text \<open>
  The \<open>if (amount)\<close> block: with no company document, \<open>company.currency\<close> throws; a failed
  conversion throws as well.
\<close>

definition update_amount ::
  "rate_source \<Rightarrow> company_doc option \<Rightarrow> amount_field \<Rightarrow> expense \<Rightarrow> expense option" where
  "update_amount getCurrencyRates company_found amt expense =
     (if amount_truthy amt then
        (case company_found of
           None \<Rightarrow> None
         | Some cdoc \<Rightarrow>
             (case convertCurrency getCurrencyRates (amount_value amt)
                     (originalCurrency expense) (currency cdoc) of
                None \<Rightarrow> None
              | Some conv \<Rightarrow>
                  Some (expense\<lparr>amount := amount_value amt, convertedAmount := conv\<rparr>)))
      else Some expense)"

definition update_expense ::
  "rate_source \<Rightarrow> company_doc option \<Rightarrow> expense option \<Rightarrow> user \<Rightarrow> update_body \<Rightarrow> error + expense" where
  "update_expense getCurrencyRates company_found found usr body =
     (if \<not> update_valid body then Inl ValidationError
      else case found of
        None \<Rightarrow> Inl NotFound
      | Some expense \<Rightarrow>
          if role usr = ''employee'' \<and> employee expense \<noteq> uid usr then Inl AuthorizationError
          else if exp_status expense \<noteq> Pending then Inl StateError
          else
            (case update_amount getCurrencyRates company_found (ub_amount body) expense of
               None \<Rightarrow> Inl ServerError
             | Some e1 \<Rightarrow>
                 let e2 = (case ub_category body of None \<Rightarrow> e1 | Some c \<Rightarrow> e1\<lparr>category := c\<rparr>);
                     e3 = (case ub_description body of
                             None \<Rightarrow> e2 | Some d \<Rightarrow> e2\<lparr>description := trim d\<rparr>);
                     e4 = (case ub_expenseDate body of
                             Given d \<Rightarrow> e3\<lparr>expenseDate := d\<rparr> | _ \<Rightarrow> e3)
                 in if save_valid e4 then Inr e4 else Inl ServerError))"

section \<open>Approval routes: approve and reject\<close>

text \<open>
  The last branch of the approve handler (\<open>No more approvers\<close>): no pending step with a
  greater order is left.
\<close>

definition no_more_approvers :: "(oid \<Rightarrow> string) \<Rightarrow> company_doc \<Rightarrow> expense \<Rightarrow> expense" where
  "no_more_approvers roles cdoc expense =
     (let approvalPercentage = getApprovalPercentage (approvalFlow expense);
          rules = approvalRules (settings cdoc)
      in if pr_enabled (percentageRule rules) \<and>
            approvalPercentage \<ge> pr_percentage (percentageRule rules)
         then expense\<lparr>exp_status := Approved, currentApprover := None\<rparr>
         else if sr_enabled (specificApproverRule rules) then
           (let hasSpecificApprover =
                  list_ex (approved_with_role roles (sr_approverRole (specificApproverRule rules)))
                    (approvalFlow expense)
            in if hasSpecificApprover
               then expense\<lparr>exp_status := Approved, currentApprover := None\<rparr>
               else expense)
         else expense\<lparr>exp_status := Approved, currentApprover := None\<rparr>)"

text \<open>
  The approve handler from the assignment to \<open>currentApproval\<close> on: \<open>i\<close> is the position
  of \<open>currentApproval\<close> in the flow and \<open>c\<close> is \<open>comments || ''\<close>.
\<close>

definition approve_step ::
  "(oid \<Rightarrow> string) \<Rightarrow> company_doc \<Rightarrow> nat \<Rightarrow> expense \<Rightarrow> oid \<Rightarrow> string \<Rightarrow> nat \<Rightarrow> expense" where
  "approve_step roles cdoc now expense user_id c i =
     (let currentApproval = (approvalFlow expense ! i)
            \<lparr>status := StepApproved, comments := Some c, timestamp := Some now\<rparr>;
          expense1 = expense
            \<lparr>approvalFlow := (approvalFlow expense)[i := currentApproval],
             approvalHistory := approvalHistory expense @
               [\<lparr>h_approver = user_id, h_action = ActApproved, h_comments = trim c,
                 h_timestamp = now\<rparr>]\<rparr>
      in if checkApprovalCriteria roles cdoc (approvalFlow expense1)
         then expense1\<lparr>exp_status := Approved, currentApprover := None\<rparr>
         else
           (case List.find (pending_after (order currentApproval)) (approvalFlow expense1) of
              Some nextApproval \<Rightarrow> expense1\<lparr>currentApprover := Some (approver nextApproval)\<rparr>
            | None \<Rightarrow> no_more_approvers roles cdoc expense1))"

text \<open>
  The handler of \<open>POST /api/approvals/:id/approve\<close>, after the auth middleware. \<open>found\<close>
  is the result of \<open>Expense.findById\<close>, \<open>cdoc\<close> and \<open>roles\<close> are its populated company
  and approver roles, \<open>user_id\<close> is \<open>req.user._id\<close>. A null \<open>currentApprover\<close> makes
  \<open>expense.currentApprover.toString()\<close> throw into the catch block (500). The optional
  comments are a string when present, so their validator cannot fail. The result is the
  saved document or the error response; nothing is saved on an error.
\<close>

definition approve_expense ::
  "(oid \<Rightarrow> string) \<Rightarrow> company_doc \<Rightarrow> nat \<Rightarrow> expense option \<Rightarrow> oid \<Rightarrow> string option
     \<Rightarrow> error + expense" where
  "approve_expense roles cdoc now found user_id body_comments =
     (case found of
        None \<Rightarrow> Inl NotFound
      | Some expense \<Rightarrow>
          (case currentApprover expense of
             None \<Rightarrow> Inl ServerError
           | Some cur \<Rightarrow>
               if cur \<noteq> user_id then Inl AuthorizationError
               else
                 (case find_pos (pending_for user_id) (approvalFlow expense) of
                    None \<Rightarrow> Inl StateError
                  | Some i \<Rightarrow>
                      Inr (approve_step roles cdoc now expense user_id
                             (case body_comments of None \<Rightarrow> [] | Some c \<Rightarrow> c) i))))"

text \<open>
  The handler of \<open>POST /api/approvals/:id/reject\<close>: the comments are required and not
  empty.
\<close>

definition reject_expense ::
  "nat \<Rightarrow> expense option \<Rightarrow> oid \<Rightarrow> string option \<Rightarrow> error + expense" where
  "reject_expense now found user_id body_comments =
     (case body_comments of
        None \<Rightarrow> Inl ValidationError
      | Some c \<Rightarrow>
          if c = [] then Inl ValidationError
          else
            (case found of
               None \<Rightarrow> Inl NotFound
             | Some expense \<Rightarrow>
                 (case currentApprover expense of
                    None \<Rightarrow> Inl ServerError
                  | Some cur \<Rightarrow>
                      if cur \<noteq> user_id then Inl AuthorizationError
                      else
                        (case find_pos (pending_for user_id) (approvalFlow expense) of
                           None \<Rightarrow> Inl StateError
                         | Some i \<Rightarrow>
                             Inr (expense
                               \<lparr>approvalFlow := (approvalFlow expense)
                                  [i := (approvalFlow expense ! i)
                                     \<lparr>status := StepRejected, comments := Some c,
                                      timestamp := Some now\<rparr>],
                                approvalHistory := approvalHistory expense @
                                  [\<lparr>h_approver = user_id, h_action = ActRejected,
                                    h_comments = trim c, h_timestamp = now\<rparr>],
                                exp_status := Rejected,
                                currentApprover := None\<rparr>)))))"

text \<open>
  The two handlers with the Expense collection made explicit. The collection is a map
  from ids to documents. \<open>Expense.findById(expenseId)\<close> reads it; the handler assigns to
  the document it has read, not to the collection; \<open>expense.save()\<close>, the last statement
  before the success response, writes that document back. Every early return and the
  catch block respond without a save. The result is the response and the collection
  after the request.
\<close>

type_synonym expense_store = "oid \<rightharpoonup> expense"

definition reject_step :: "nat \<Rightarrow> expense \<Rightarrow> oid \<Rightarrow> string \<Rightarrow> nat \<Rightarrow> expense" where
  "reject_step now expense user_id c i =
     expense
       \<lparr>approvalFlow := (approvalFlow expense)
          [i := (approvalFlow expense ! i)
             \<lparr>status := StepRejected, comments := Some c, timestamp := Some now\<rparr>],
        approvalHistory := approvalHistory expense @
          [\<lparr>h_approver = user_id, h_action = ActRejected, h_comments = trim c,
            h_timestamp = now\<rparr>],
        exp_status := Rejected,
        currentApprover := None\<rparr>"

definition approve_request ::
  "(oid \<Rightarrow> string) \<Rightarrow> company_doc \<Rightarrow> nat \<Rightarrow> expense_store \<Rightarrow> oid \<Rightarrow> oid \<Rightarrow> string option
     \<Rightarrow> (error + expense) \<times> expense_store" where
  "approve_request roles cdoc now db expenseId user_id body_comments =
     (case db expenseId of
        None \<Rightarrow> (Inl NotFound, db)
      | Some expense \<Rightarrow>
          (case currentApprover expense of
             None \<Rightarrow> (Inl ServerError, db)
           | Some cur \<Rightarrow>
               if cur \<noteq> user_id then (Inl AuthorizationError, db)
               else
                 (case find_pos (pending_for user_id) (approvalFlow expense) of
                    None \<Rightarrow> (Inl StateError, db)
                  | Some i \<Rightarrow>
                      let saved = approve_step roles cdoc now expense user_id
                                    (case body_comments of None \<Rightarrow> [] | Some c \<Rightarrow> c) i
                      in (Inr saved, db(expenseId \<mapsto> saved)))))"

definition reject_request ::
  "nat \<Rightarrow> expense_store \<Rightarrow> oid \<Rightarrow> oid \<Rightarrow> string option \<Rightarrow> (error + expense) \<times> expense_store" where
  "reject_request now db expenseId user_id body_comments =
     (case body_comments of
        None \<Rightarrow> (Inl ValidationError, db)
      | Some c \<Rightarrow>
          if c = [] then (Inl ValidationError, db)
          else
            (case db expenseId of
               None \<Rightarrow> (Inl NotFound, db)
             | Some expense \<Rightarrow>
                 (case currentApprover expense of
                    None \<Rightarrow> (Inl ServerError, db)
                  | Some cur \<Rightarrow>
                      if cur \<noteq> user_id then (Inl AuthorizationError, db)
                      else
                        (case find_pos (pending_for user_id) (approvalFlow expense) of
                           None \<Rightarrow> (Inl StateError, db)
                         | Some i \<Rightarrow>
                             let saved = reject_step now expense user_id c i
                             in (Inr saved, db(expenseId \<mapsto> saved))))))"

section \<open>Example documents\<close>

text \<open>
  A company with the schema defaults, the same company with the specific approver rule
  switched on, and a small User collection: an admin, a team lead, a finance manager
  and an employee who reports to the team lead.
\<close>

definition default_rules :: approval_rules where
  "default_rules =
     \<lparr>percentageRule = \<lparr>pr_enabled = False, pr_percentage = 60\<rparr>,
      specificApproverRule = \<lparr>sr_enabled = False, sr_approverRole = ''CFO''\<rparr>,
      hybridRule = \<lparr>hr_enabled = False, hr_percentage = 60, hr_specificRole = ''CFO''\<rparr>\<rparr>"

definition default_thresholds :: thresholds_t where
  "default_thresholds = \<lparr>managerApproval = 1000, financeApproval = 5000, directorApproval = 10000\<rparr>"

definition acme :: company_doc where
  "acme = \<lparr>cid = 1, currency = ''USD'',
            settings = \<lparr>approvalRules = default_rules, thresholds = default_thresholds\<rparr>\<rparr>"

definition acme_cfo :: company_doc where
  "acme_cfo = acme\<lparr>settings := (settings acme)\<lparr>approvalRules := default_rules
     \<lparr>specificApproverRule := \<lparr>sr_enabled = True, sr_approverRole = ''CFO''\<rparr>\<rparr>\<rparr>\<rparr>"

definition admin_u :: user where
  "admin_u = \<lparr>uid = 10, u_company = 1, role = ''admin'', manager = None, isManagerApprover = False\<rparr>"

definition lead_u :: user where
  "lead_u = \<lparr>uid = 20, u_company = 1, role = ''manager'', manager = None, isManagerApprover = False\<rparr>"

definition finance_u :: user where
  "finance_u = \<lparr>uid = 30, u_company = 1, role = ''manager'', manager = None, isManagerApprover = True\<rparr>"

definition employee_u :: user where
  "employee_u = \<lparr>uid = 40, u_company = 1, role = ''employee'', manager = Some 20, isManagerApprover = True\<rparr>"

definition staff :: "user list" where
  "staff = [admin_u, lead_u, finance_u, employee_u]"

text \<open>The role that \<open>populate\<close> joins to an approver id.\<close>

definition roles_of :: "user list \<Rightarrow> oid \<Rightarrow> string" where
  "roles_of users i = (case findById users i of None \<Rightarrow> [] | Some u \<Rightarrow> role u)"

text \<open>
  Two expenses of the employee: a 6000 USD trip (team lead, then finance manager) and a
  100 USD lunch (team lead only), and the documents that the handlers make of them.
\<close>

definition trip :: expense where
  "trip = \<lparr>employee = 40, company = 1, amount = 6000, originalCurrency = ''USD'',
            convertedAmount = 6000, companyCurrency = ''USD'', category = ''travel'',
            description = ''Flight'', expenseDate = 100, exp_status = Pending,
            currentApprover = Some 20, approvalHistory = [],
            approvalFlow = [new_step 20 1, new_step 30 2]\<rparr>"

definition lunch :: expense where
  "lunch = \<lparr>employee = 40, company = 1, amount = 100, originalCurrency = ''USD'',
            convertedAmount = 100, companyCurrency = ''USD'', category = ''meals'',
            description = ''Lunch'', expenseDate = 100, exp_status = Pending,
            currentApprover = Some 20, approvalHistory = [],
            approvalFlow = [new_step 20 1]\<rparr>"

definition trip_advanced :: expense where
  "trip_advanced = trip
     \<lparr>currentApprover := Some 30,
      approvalHistory := [\<lparr>h_approver = 20, h_action = ActApproved, h_comments = [], h_timestamp = 7\<rparr>],
      approvalFlow := [(new_step 20 1)\<lparr>status := StepApproved, comments := Some [], timestamp := Some 7\<rparr>,
                       new_step 30 2]\<rparr>"

definition lunch_stuck :: expense where
  "lunch_stuck = lunch
     \<lparr>approvalHistory := [\<lparr>h_approver = 20, h_action = ActApproved, h_comments = [], h_timestamp = 7\<rparr>],
      approvalFlow := [(new_step 20 1)\<lparr>status := StepApproved, comments := Some [], timestamp := Some 7\<rparr>]\<rparr>"

definition lunch_approved :: expense where
  "lunch_approved = lunch_stuck\<lparr>exp_status := Approved, currentApprover := None\<rparr>"

definition lunch_body :: create_body where
  "lunch_body = \<lparr>b_amount = Some 100, b_originalCurrency = ''USD'', b_category = ''meals'',
                  b_description = ''Lunch'', b_expenseDate = Some 100\<rparr>"

definition loner_u :: user where
  "loner_u = \<lparr>uid = 50, u_company = 2, role = ''employee'', manager = None, isManagerApprover = False\<rparr>"

definition startup :: company_doc where
  "startup = acme\<lparr>cid := 2\<rparr>"

definition no_rates :: rate_source where
  "no_rates base = None"

definition raise_body :: update_body where
  "raise_body = \<lparr>ub_amount = AmountNumber 6000, ub_category = None, ub_description = None,
                  ub_expenseDate = Absent\<rparr>"

definition orphan :: expense where
  "orphan = \<lparr>employee = 50, company = 2, amount = 100, originalCurrency = ''USD'',
            convertedAmount = 100, companyCurrency = ''USD'', category = ''meals'',
            description = ''Lunch'', expenseDate = 100, exp_status = Pending,
            currentApprover = None, approvalHistory = [], approvalFlow = []\<rparr>"

definition lunch_raised :: expense where
  "lunch_raised = lunch\<lparr>amount := 6000, convertedAmount := 6000\<rparr>"



section \<open>Helper lemmas\<close>

lemma find_pos_Some:
  "find_pos P xs = Some i \<Longrightarrow> i < length xs \<and> P (xs ! i) \<and> (\<forall>j<i. \<not> P (xs ! j))"
proof (induction xs arbitrary: i)
  case Nil
  then show ?case by simp
next
  case (Cons x xs)
  show ?case
  proof (cases "P x")
    case True
    with Cons.prems show ?thesis by simp
  next
    case False
    with Cons.prems obtain k where k: "find_pos P xs = Some k" "i = Suc k" by auto
    from Cons.IH [OF k(1)] False k(2) show ?thesis
      by (auto simp: less_Suc_eq_0_disj)
  qed
qed

lemma find_pos_None_iff: "find_pos P xs = None \<longleftrightarrow> (\<forall>x\<in>set xs. \<not> P x)"
  by (induction xs) auto

lemma find_pos_ex: "\<exists>x\<in>set xs. P x \<Longrightarrow> \<exists>i. find_pos P xs = Some i"
  using find_pos_None_iff [of P xs] by (cases "find_pos P xs") auto

section \<open>Rule engine: properties\<close>

lemma approved_count_le: "length (filter (\<lambda>f. status f = StepApproved) flow) \<le> length flow"
  by (rule length_filter_le)

lemma approved_count_update:
  "length (filter (\<lambda>f. status f = StepApproved) flow)
     \<le> length (filter (\<lambda>f. status f = StepApproved) (flow[i := (flow ! i)\<lparr>status := StepApproved\<rparr>]))"
proof (induction flow arbitrary: i)
  case Nil
  then show ?case by simp
next
  case (Cons x xs)
  show ?case
  proof (cases i)
    case 0
    then show ?thesis by simp
  next
    case (Suc j)
    with Cons [of j] show ?thesis by simp
  qed
qed

lemma approved_count_insert:
  "length (filter (\<lambda>f. status f = StepApproved) (take n flow @ s\<lparr>status := StepApproved\<rparr> # drop n flow))
     = Suc (length (filter (\<lambda>f. status f = StepApproved) flow))"
proof -
  have "filter (\<lambda>f. status f = StepApproved) (take n flow) @
        filter (\<lambda>f. status f = StepApproved) (drop n flow) =
        filter (\<lambda>f. status f = StepApproved) flow"
    by (metis append_take_drop_id filter_append)
  from arg_cong [OF this, of length] show ?thesis by simp
qed

lemma percentage_frac_mono:
  assumes "a \<le> t" "a \<le> b" "t \<le> u" "u \<le> t + (b - a)" "0 < t"
  shows "real a / real t * 100 \<le> real b / real u * 100"
proof -
  have "0 < u" using assms by linarith
  have "real a * real u \<le> real b * real t"
  proof -
    obtain d where b: "b = a + d" using assms(2) le_Suc_ex by blast
    have "u \<le> t + d" using assms(4) b by simp
    then have "a * u \<le> a * (t + d)" by simp
    also have "\<dots> = a * t + a * d" by (simp add: algebra_simps)
    also have "\<dots> \<le> a * t + t * d" using assms(1) by simp
    also have "\<dots> = b * t" by (simp add: b algebra_simps)
    finally have "a * u \<le> b * t" .
    then have "real (a * u) \<le> real (b * t)" by (simp only: of_nat_le_iff)
    then show ?thesis by simp
  qed
  then have "real a / real t \<le> real b / real u"
    using \<open>0 < t\<close> \<open>0 < u\<close> by (simp add: frac_le_eq field_simps)
  then show ?thesis by (rule mult_right_mono) simp
qed

lemma getApprovalPercentage_nonempty:
  "flow \<noteq> [] \<Longrightarrow> getApprovalPercentage flow =
     real (length (filter (\<lambda>f. status f = StepApproved) flow)) / real (length flow) * 100"
  by (simp add: getApprovalPercentage_def Let_def)

text \<open>
  C9. The approval percentage is (approved steps / all steps) * 100 and is 0 for the
  empty flow. One more approved step never decreases it: neither a new approved step
  added to the flow (at any position \<open>n\<close>), nor a step of the flow that becomes approved.
  JavaScript's doubles are read as real numbers.
\<close>

theorem approvalPercentage_monotone:
  "getApprovalPercentage flow =
     (if flow = [] then 0
      else real (length (filter (\<lambda>f. status f = StepApproved) flow)) / real (length flow) * 100)
   \<and> getApprovalPercentage [] = 0
   \<and> getApprovalPercentage flow
       \<le> getApprovalPercentage (take n flow @ s\<lparr>status := StepApproved\<rparr> # drop n flow)
   \<and> getApprovalPercentage flow
       \<le> getApprovalPercentage (flow[i := (flow ! i)\<lparr>status := StepApproved\<rparr>])"
proof (intro conjI)
  show "getApprovalPercentage flow =
     (if flow = [] then 0
      else real (length (filter (\<lambda>f. status f = StepApproved) flow)) / real (length flow) * 100)"
    by (simp add: getApprovalPercentage_def Let_def)
  show "getApprovalPercentage [] = 0"
    by (simp add: getApprovalPercentage_def)
  show "getApprovalPercentage flow
       \<le> getApprovalPercentage (take n flow @ s\<lparr>status := StepApproved\<rparr> # drop n flow)"
  proof (cases "flow = []")
    case True
    then show ?thesis by (simp add: getApprovalPercentage_def)
  next
    case False
    let ?ext = "take n flow @ s\<lparr>status := StepApproved\<rparr> # drop n flow"
    have len: "length ?ext = Suc (length flow)" by simp
    have "real (length (filter (\<lambda>f. status f = StepApproved) flow)) / real (length flow) * 100
          \<le> real (length (filter (\<lambda>f. status f = StepApproved) ?ext)) / real (length ?ext) * 100"
      using False unfolding approved_count_insert len
      by (intro percentage_frac_mono approved_count_le) simp_all
    moreover have ne: "?ext \<noteq> []" by simp
    ultimately show ?thesis
      by (simp only: getApprovalPercentage_nonempty [OF False] getApprovalPercentage_nonempty [OF ne])
  qed
  show "getApprovalPercentage flow
       \<le> getApprovalPercentage (flow[i := (flow ! i)\<lparr>status := StepApproved\<rparr>])"
  proof (cases "flow = []")
    case True
    then show ?thesis by (simp add: getApprovalPercentage_def)
  next
    case False
    let ?upd = "flow[i := (flow ! i)\<lparr>status := StepApproved\<rparr>]"
    have "real (length (filter (\<lambda>f. status f = StepApproved) flow)) / real (length flow) * 100
          \<le> real (length (filter (\<lambda>f. status f = StepApproved) ?upd)) / real (length ?upd) * 100"
      using False by (intro percentage_frac_mono approved_count_le approved_count_update) simp_all
    moreover have ne: "?upd \<noteq> []" using False by simp
    ultimately show ?thesis
      by (simp only: getApprovalPercentage_nonempty [OF False] getApprovalPercentage_nonempty [OF ne])
  qed
qed

text \<open>
  C3. The rules are composed by disjunction: \<open>checkApprovalCriteria\<close> is true exactly
  when an enabled rule is satisfied (the percentage rule by the approval percentage, the
  specific approver rule by an approved step whose approver has the configured role, the
  hybrid rule by either), and it is false when no rule is enabled.
\<close>

theorem checkApprovalCriteria_or:
  "(checkApprovalCriteria roles cdoc flow \<longleftrightarrow>
      (pr_enabled (percentageRule (rules_of cdoc)) \<and>
         getApprovalPercentage flow \<ge> pr_percentage (percentageRule (rules_of cdoc)))
    \<or> (sr_enabled (specificApproverRule (rules_of cdoc)) \<and>
         (\<exists>f\<in>set flow. status f = StepApproved \<and>
            roles (approver f) = sr_approverRole (specificApproverRule (rules_of cdoc))))
    \<or> (hr_enabled (hybridRule (rules_of cdoc)) \<and>
         (getApprovalPercentage flow \<ge> hr_percentage (hybridRule (rules_of cdoc)) \<or>
          (\<exists>f\<in>set flow. status f = StepApproved \<and>
            roles (approver f) = hr_specificRole (hybridRule (rules_of cdoc))))))
   \<and> (\<not> pr_enabled (percentageRule (rules_of cdoc)) \<and>
      \<not> sr_enabled (specificApproverRule (rules_of cdoc)) \<and>
      \<not> hr_enabled (hybridRule (rules_of cdoc)) \<longrightarrow> \<not> checkApprovalCriteria roles cdoc flow)"
  unfolding checkApprovalCriteria_def rules_of_def Let_def
  by (auto simp: find_None_iff list_ex_iff approved_with_role_def)

theorem checkApprovalCriteria_or_witness:
  "\<not> pr_enabled (percentageRule (rules_of acme)) \<and>
   \<not> sr_enabled (specificApproverRule (rules_of acme)) \<and>
   \<not> hr_enabled (hybridRule (rules_of acme)) \<and>
   \<not> checkApprovalCriteria (roles_of staff) acme [(new_step 20 1)\<lparr>status := StepApproved\<rparr>] \<and>
   checkApprovalCriteria (roles_of staff) (acme\<lparr>settings := (settings acme)\<lparr>approvalRules := default_rules
     \<lparr>hybridRule := \<lparr>hr_enabled = True, hr_percentage = 60, hr_specificRole = ''admin''\<rparr>\<rparr>\<rparr>\<rparr>)
     [(new_step 20 1)\<lparr>status := StepApproved\<rparr>, new_step 30 2, new_step 10 3]
   = (\<exists>f\<in>set [(new_step 20 1)\<lparr>status := StepApproved\<rparr>, new_step 30 2, new_step 10 3].
        status f = StepApproved \<and> roles_of staff (approver f) = ''admin'')"
  using checkApprovalCriteria_or [of "roles_of staff" acme "[(new_step 20 1)\<lparr>status := StepApproved\<rparr>]"]
    checkApprovalCriteria_or [of "roles_of staff" "acme\<lparr>settings := (settings acme)\<lparr>approvalRules := default_rules
     \<lparr>hybridRule := \<lparr>hr_enabled = True, hr_percentage = 60, hr_specificRole = ''admin''\<rparr>\<rparr>\<rparr>\<rparr>"
     "[(new_step 20 1)\<lparr>status := StepApproved\<rparr>, new_step 30 2, new_step 10 3]"]
  by (simp add: rules_of_def acme_def default_rules_def getApprovalPercentage_def new_step_def)

section \<open>Approval handlers: properties\<close>

lemma find_pos_pending_for:
  assumes "find_pos (pending_for u) flow = Some i"
  shows "i < length flow \<and> approver (flow ! i) = u \<and> status (flow ! i) = StepPending \<and>
         (\<forall>j<i. \<not> pending_for u (flow ! j))"
  using find_pos_Some [OF assms] by (simp add: pending_for_def)

text \<open>
  C2. Veto: when the current approver rejects with non-empty comments and has a pending
  step, the request succeeds, the first pending step of that user becomes Rejected, a
  rejected entry is appended to the history, and the expense is Rejected with no current
  approver. The handler never reads the company policy, so this holds under every rule
  configuration.
\<close>

theorem reject_vetoes:
  assumes actor: "currentApprover e = Some u"
      and step: "\<exists>s\<in>set (approvalFlow e). approver s = u \<and> status s = StepPending"
      and given: "c \<noteq> []"
  shows "\<exists>i e'. reject_expense now (Some e) u (Some c) = Inr e' \<and>
           i < length (approvalFlow e) \<and>
           approver (approvalFlow e ! i) = u \<and> status (approvalFlow e ! i) = StepPending \<and>
           approvalFlow e' = (approvalFlow e)
             [i := (approvalFlow e ! i)\<lparr>status := StepRejected, comments := Some c,
                                         timestamp := Some now\<rparr>] \<and>
           status (approvalFlow e' ! i) = StepRejected \<and>
           approvalHistory e' = approvalHistory e @
             [\<lparr>h_approver = u, h_action = ActRejected, h_comments = trim c, h_timestamp = now\<rparr>] \<and>
           exp_status e' = Rejected \<and> currentApprover e' = None"
proof -
  from step have "\<exists>s\<in>set (approvalFlow e). pending_for u s"
    by (simp add: pending_for_def)
  from find_pos_ex [OF this]
  obtain i where i: "find_pos (pending_for u) (approvalFlow e) = Some i" ..
  let ?flow = "(approvalFlow e)
             [i := (approvalFlow e ! i)\<lparr>status := StepRejected, comments := Some c,
                                         timestamp := Some now\<rparr>]"
  let ?e' = "e\<lparr>approvalFlow := ?flow,
               approvalHistory := approvalHistory e @
                 [\<lparr>h_approver = u, h_action = ActRejected, h_comments = trim c, h_timestamp = now\<rparr>],
               exp_status := Rejected, currentApprover := None\<rparr>"
  have res: "reject_expense now (Some e) u (Some c) = Inr ?e'"
    unfolding reject_expense_def using actor given i by simp
  have props: "i < length (approvalFlow e)" "approver (approvalFlow e ! i) = u"
    "status (approvalFlow e ! i) = StepPending"
    using find_pos_pending_for [OF i] by simp_all
  have st: "status (approvalFlow ?e' ! i) = StepRejected"
    using props(1) by simp
  have "reject_expense now (Some e) u (Some c) = Inr ?e' \<and>
           i < length (approvalFlow e) \<and>
           approver (approvalFlow e ! i) = u \<and> status (approvalFlow e ! i) = StepPending \<and>
           approvalFlow ?e' = ?flow \<and>
           status (approvalFlow ?e' ! i) = StepRejected \<and>
           approvalHistory ?e' = approvalHistory e @
             [\<lparr>h_approver = u, h_action = ActRejected, h_comments = trim c, h_timestamp = now\<rparr>] \<and>
           exp_status ?e' = Rejected \<and> currentApprover ?e' = None"
    by (intro conjI res props st) simp_all
  then show ?thesis by (intro exI)
qed

theorem reject_vetoes_witness:
  "currentApprover trip = Some 20 \<and>
   (\<exists>s\<in>set (approvalFlow trip). approver s = 20 \<and> status s = StepPending) \<and>
   ''over budget'' \<noteq> [] \<and>
   (\<exists>i e'. reject_expense 7 (Some trip) 20 (Some ''over budget'') = Inr e' \<and>
           i < length (approvalFlow trip) \<and>
           approver (approvalFlow trip ! i) = 20 \<and> status (approvalFlow trip ! i) = StepPending \<and>
           approvalFlow e' = (approvalFlow trip)
             [i := (approvalFlow trip ! i)\<lparr>status := StepRejected, comments := Some ''over budget'',
                                         timestamp := Some 7\<rparr>] \<and>
           status (approvalFlow e' ! i) = StepRejected \<and>
           approvalHistory e' = approvalHistory trip @
             [\<lparr>h_approver = 20, h_action = ActRejected, h_comments = trim ''over budget'', h_timestamp = 7\<rparr>] \<and>
           exp_status e' = Rejected \<and> currentApprover e' = None)"
proof -
  have a: "currentApprover trip = Some 20" by (simp add: trip_def)
  have b: "\<exists>s\<in>set (approvalFlow trip). approver s = 20 \<and> status s = StepPending"
    by (simp add: trip_def new_step_def)
  have c: "''over budget'' \<noteq> []" by simp
  show ?thesis by (intro conjI a b c reject_vetoes [OF a b c])
qed

lemma approve_expense_step:
  assumes "currentApprover e = Some u" "find_pos (pending_for u) (approvalFlow e) = Some i"
  shows "approve_expense roles cdoc now (Some e) u bc =
           Inr (approve_step roles cdoc now e u (case bc of None \<Rightarrow> [] | Some c \<Rightarrow> c) i)"
  using assms by (simp add: approve_expense_def)

lemma approvalFlow_no_more_approvers:
  "approvalFlow (no_more_approvers roles cdoc e) = approvalFlow e"
  by (simp add: no_more_approvers_def Let_def)

lemma approvalFlow_approve_step:
  "approvalFlow (approve_step roles cdoc now e u c i) =
     (approvalFlow e)[i := (approvalFlow e ! i)
        \<lparr>status := StepApproved, comments := Some c, timestamp := Some now\<rparr>]"
  by (simp add: approve_step_def Let_def approvalFlow_no_more_approvers split: option.splits)

lemma approve_step_next:
  assumes "\<not> checkApprovalCriteria roles cdoc (approvalFlow (approve_step roles cdoc now e u c i))"
      and "List.find (pending_after (order (approvalFlow e ! i)))
             (approvalFlow (approve_step roles cdoc now e u c i)) = Some nxt"
  shows "exp_status (approve_step roles cdoc now e u c i) = exp_status e \<and>
         currentApprover (approve_step roles cdoc now e u c i) = Some (approver nxt)"
  using assms unfolding approvalFlow_approve_step
  by (simp add: approve_step_def Let_def)

lemma approve_step_exhausted:
  assumes "\<not> checkApprovalCriteria roles cdoc (approvalFlow (approve_step roles cdoc now e u c i))"
      and "List.find (pending_after (order (approvalFlow e ! i)))
             (approvalFlow (approve_step roles cdoc now e u c i)) = None"
      and "\<not> sr_enabled (specificApproverRule (rules_of cdoc))"
  shows "exp_status (approve_step roles cdoc now e u c i) = Approved \<and>
         currentApprover (approve_step roles cdoc now e u c i) = None"
  using assms unfolding approvalFlow_approve_step
  by (simp add: approve_step_def no_more_approvers_def rules_of_def Let_def)

lemma find_least_order:
  assumes sorted: "sorted_wrt (<) (map order flow)"
      and found: "List.find P flow = Some x"
      and other: "y \<in> set flow" "P y"
  shows "order x \<le> order y"
proof -
  from found obtain i where i: "i < length flow" "x = flow ! i" "\<forall>j<i. \<not> P (flow ! j)"
    by (auto simp: find_Some_iff)
  from other obtain k where k: "k < length flow" "y = flow ! k"
    by (auto simp: in_set_conv_nth)
  have "i \<le> k" using i(3) k(2) other(2) by (meson not_le_imp_less)
  show ?thesis
  proof (cases "i = k")
    case True
    then show ?thesis using i k by simp
  next
    case False
    with \<open>i \<le> k\<close> have "i < k" by simp
    with sorted k(1) have "map order flow ! i < map order flow ! k"
      by (simp add: sorted_wrt_iff_nth_less)
    then show ?thesis using i k \<open>i < k\<close> by simp
  qed
qed

lemma map_order_update:
  "map order (flow[i := (flow ! i)\<lparr>status := st, comments := cm, timestamp := ts\<rparr>]) = map order flow"
proof (cases "i < length flow")
  case True
  then have "(map order flow)[i := order (flow ! i)] = map order flow"
    by (metis list_update_id nth_map)
  then show ?thesis by (simp add: map_update)
next
  case False
  then have "length flow \<le> i" by simp
  then show ?thesis by (simp only: list_update_beyond)
qed

text \<open>
  C4. Advance to the next approver: on a pending expense whose flow has strictly
  increasing orders (as \<open>setupApprovalFlow\<close> builds it), an approval by the current
  approver succeeds, and when the completion rules are not met while some pending step
  has a greater order than the step just approved, the expense stays Pending and the
  current approver becomes the approver of the pending step with the least such order.
\<close>

theorem approve_advances_to_next:
  assumes pending: "exp_status e = Pending"
      and actor: "currentApprover e = Some u"
      and step: "find_pos (pending_for u) (approvalFlow e) = Some i"
      and ordered: "sorted_wrt (<) (map order (approvalFlow e))"
  shows "\<exists>e'. approve_expense roles cdoc now (Some e) u bc = Inr e' \<and>
          (\<not> checkApprovalCriteria roles cdoc (approvalFlow e') \<and>
           (\<exists>s\<in>set (approvalFlow e'). status s = StepPending \<and> order (approvalFlow e ! i) < order s)
           \<longrightarrow> exp_status e' = Pending \<and>
               (\<exists>nxt\<in>set (approvalFlow e').
                  status nxt = StepPending \<and> order (approvalFlow e ! i) < order nxt \<and>
                  (\<forall>s\<in>set (approvalFlow e').
                     status s = StepPending \<and> order (approvalFlow e ! i) < order s
                     \<longrightarrow> order nxt \<le> order s) \<and>
                  currentApprover e' = Some (approver nxt)))"
proof -
  define c where "c = (case bc of None \<Rightarrow> [] | Some c \<Rightarrow> c)"
  define e' where "e' = approve_step roles cdoc now e u c i"
  define n where "n = order (approvalFlow e ! i)"
  have res: "approve_expense roles cdoc now (Some e) u bc = Inr e'"
    unfolding e'_def c_def by (rule approve_expense_step [OF actor step])
  have ord': "sorted_wrt (<) (map order (approvalFlow e'))"
    unfolding e'_def approvalFlow_approve_step map_order_update by (rule ordered)
  have "exp_status e' = Pending \<and>
        (\<exists>nxt\<in>set (approvalFlow e').
           status nxt = StepPending \<and> n < order nxt \<and>
           (\<forall>s\<in>set (approvalFlow e'). status s = StepPending \<and> n < order s \<longrightarrow> order nxt \<le> order s) \<and>
           currentApprover e' = Some (approver nxt))"
    if unmet: "\<not> checkApprovalCriteria roles cdoc (approvalFlow e')"
      and later: "\<exists>s\<in>set (approvalFlow e'). status s = StepPending \<and> n < order s"
  proof -
    from later have "\<exists>s\<in>set (approvalFlow e'). pending_after n s"
      by (simp add: pending_after_def)
    then obtain nxt where nxt: "List.find (pending_after n) (approvalFlow e') = Some nxt"
      by (cases "List.find (pending_after n) (approvalFlow e')") (auto simp: find_None_iff)
    then have mem: "nxt \<in> set (approvalFlow e')" and pa: "pending_after n nxt"
      by (auto simp: find_Some_iff)
    have least: "order nxt \<le> order s" if "s \<in> set (approvalFlow e')" "pending_after n s" for s
      using find_least_order [OF ord' nxt that] .
    from approve_step_next [of roles cdoc now e u c i nxt] unmet nxt
    have "exp_status e' = exp_status e" "currentApprover e' = Some (approver nxt)"
      by (simp_all add: e'_def n_def)
    with pending mem pa least show ?thesis
      by (auto simp: pending_after_def)
  qed
  with res show ?thesis unfolding n_def by blast
qed

text \<open>
  C1, amended. Default approval on exhaustion: when the specific approver rule is not
  enabled, an approval by the current approver that meets no completion rule and leaves
  no pending step with a greater order ends with the expense Approved and no current
  approver.
\<close>

theorem approve_default_on_exhaustion:
  assumes actor: "currentApprover e = Some u"
      and step: "find_pos (pending_for u) (approvalFlow e) = Some i"
      and no_specific: "\<not> sr_enabled (specificApproverRule (rules_of cdoc))"
  shows "\<exists>e'. approve_expense roles cdoc now (Some e) u bc = Inr e' \<and>
          (\<not> checkApprovalCriteria roles cdoc (approvalFlow e') \<and>
           \<not> (\<exists>s\<in>set (approvalFlow e'). status s = StepPending \<and> order (approvalFlow e ! i) < order s)
           \<longrightarrow> exp_status e' = Approved \<and> currentApprover e' = None)"
proof -
  define c where "c = (case bc of None \<Rightarrow> [] | Some c \<Rightarrow> c)"
  define e' where "e' = approve_step roles cdoc now e u c i"
  have res: "approve_expense roles cdoc now (Some e) u bc = Inr e'"
    unfolding e'_def c_def by (rule approve_expense_step [OF actor step])
  have "exp_status e' = Approved \<and> currentApprover e' = None"
    if unmet: "\<not> checkApprovalCriteria roles cdoc (approvalFlow e')"
      and none: "\<not> (\<exists>s\<in>set (approvalFlow e'). status s = StepPending \<and> order (approvalFlow e ! i) < order s)"
  proof -
    from none have "List.find (pending_after (order (approvalFlow e ! i))) (approvalFlow e') = None"
      by (auto simp: find_None_iff pending_after_def)
    with approve_step_exhausted [of roles cdoc now e u c i] unmet no_specific
    show ?thesis by (simp add: e'_def)
  qed
  with res show ?thesis by blast
qed

lemmas example_defs =
  trip_def lunch_def trip_advanced_def lunch_stuck_def lunch_approved_def new_step_def
  acme_def acme_cfo_def default_rules_def default_thresholds_def
  staff_def admin_u_def lead_u_def finance_u_def employee_u_def roles_of_def findById_def

lemmas handler_defs =
  approve_expense_def approve_step_def no_more_approvers_def checkApprovalCriteria_def
  getApprovalPercentage_def approved_with_role_def pending_for_def pending_after_def
  trim_def is_space_def rules_of_def

lemma approve_trip:
  "approve_expense (roles_of staff) acme 7 (Some trip) 20 None = Inr trip_advanced"
  by (simp add: handler_defs example_defs)

lemma approve_lunch_acme:
  "approve_expense (roles_of staff) acme 7 (Some lunch) 20 None = Inr lunch_approved"
  by (simp add: handler_defs example_defs)

lemma approve_lunch_cfo:
  "approve_expense (roles_of staff) acme_cfo 7 (Some lunch) 20 None = Inr lunch_stuck"
  by (simp add: handler_defs example_defs)

theorem approve_advances_to_next_witness:
  "exp_status trip = Pending \<and> currentApprover trip = Some 20 \<and>
   find_pos (pending_for 20) (approvalFlow trip) = Some 0 \<and>
   sorted_wrt (<) (map order (approvalFlow trip)) \<and>
   approve_expense (roles_of staff) acme 7 (Some trip) 20 None = Inr trip_advanced \<and>
   \<not> checkApprovalCriteria (roles_of staff) acme (approvalFlow trip_advanced) \<and>
   (\<exists>s\<in>set (approvalFlow trip_advanced).
      status s = StepPending \<and> order (approvalFlow trip ! 0) < order s) \<and>
   exp_status trip_advanced = Pending \<and>
   (\<exists>nxt\<in>set (approvalFlow trip_advanced).
      status nxt = StepPending \<and> order (approvalFlow trip ! 0) < order nxt \<and>
      (\<forall>s\<in>set (approvalFlow trip_advanced).
         status s = StepPending \<and> order (approvalFlow trip ! 0) < order s
         \<longrightarrow> order nxt \<le> order s) \<and>
      currentApprover trip_advanced = Some (approver nxt))"
proof -
  have a: "exp_status trip = Pending" by (simp add: example_defs)
  have b: "currentApprover trip = Some 20" by (simp add: example_defs)
  have c: "find_pos (pending_for 20) (approvalFlow trip) = Some 0"
    by (simp add: example_defs pending_for_def)
  have d: "sorted_wrt (<) (map order (approvalFlow trip))" by (simp add: example_defs)
  have unmet: "\<not> checkApprovalCriteria (roles_of staff) acme (approvalFlow trip_advanced)"
    by (simp add: handler_defs example_defs)
  have later: "\<exists>s\<in>set (approvalFlow trip_advanced).
      status s = StepPending \<and> order (approvalFlow trip ! 0) < order s"
    by (simp add: example_defs)
  from approve_advances_to_next [OF a b c d, of "roles_of staff" acme 7 None]
  show ?thesis
    using a b c d unmet later unfolding approve_trip by blast
qed

theorem approve_default_on_exhaustion_witness:
  "currentApprover lunch = Some 20 \<and>
   find_pos (pending_for 20) (approvalFlow lunch) = Some 0 \<and>
   \<not> sr_enabled (specificApproverRule (rules_of acme)) \<and>
   approve_expense (roles_of staff) acme 7 (Some lunch) 20 None = Inr lunch_approved \<and>
   \<not> checkApprovalCriteria (roles_of staff) acme (approvalFlow lunch_approved) \<and>
   \<not> (\<exists>s\<in>set (approvalFlow lunch_approved).
        status s = StepPending \<and> order (approvalFlow lunch ! 0) < order s) \<and>
   exp_status lunch_approved = Approved \<and> currentApprover lunch_approved = None"
proof -
  have a: "currentApprover lunch = Some 20" by (simp add: example_defs)
  have b: "find_pos (pending_for 20) (approvalFlow lunch) = Some 0"
    by (simp add: example_defs pending_for_def)
  have c: "\<not> sr_enabled (specificApproverRule (rules_of acme))"
    by (simp add: example_defs rules_of_def)
  have unmet: "\<not> checkApprovalCriteria (roles_of staff) acme (approvalFlow lunch_approved)"
    by (simp add: handler_defs example_defs)
  have none: "\<not> (\<exists>s\<in>set (approvalFlow lunch_approved).
        status s = StepPending \<and> order (approvalFlow lunch ! 0) < order s)"
    by (simp add: example_defs)
  from approve_default_on_exhaustion [OF a b c, of "roles_of staff" 7 None]
  show ?thesis
    using a b c unmet none unfolding approve_lunch_acme by blast
qed

text \<open>
  C1 as stated fails when the specific approver rule is enabled: the sole approver of an
  expense approves, no rule is met and no step is left, and the expense stays Pending
  with the same current approver.
\<close>

theorem approve_exhaustion_counterexample:
  "currentApprover lunch = Some 20 \<and>
   find_pos (pending_for 20) (approvalFlow lunch) = Some 0 \<and>
   approve_expense (roles_of staff) acme_cfo 7 (Some lunch) 20 None = Inr lunch_stuck \<and>
   \<not> checkApprovalCriteria (roles_of staff) acme_cfo (approvalFlow lunch_stuck) \<and>
   List.find (pending_after (order (approvalFlow lunch ! 0))) (approvalFlow lunch_stuck) = None \<and>
   exp_status lunch_stuck = Pending \<and> currentApprover lunch_stuck = Some 20"
  by (simp add: approve_lunch_cfo) (simp add: handler_defs example_defs)




lemma reject_request_saved:
  assumes "fst (reject_request now db i u bc) = Inr e'"
  shows "snd (reject_request now db i u bc) = db(i \<mapsto> e')"
  using assms
  by (auto simp: reject_request_def Let_def split: option.splits if_splits)

text \<open>
  The guard \<open>No pending approval found for current user\<close> (400) answers the current
  approver exactly when no step of the flow is pending for that user.
\<close>

lemma pending_step_iff:
  "(\<exists>s\<in>set flow. approver s = u \<and> status s = StepPending) \<longleftrightarrow>
     find_pos (pending_for u) flow \<noteq> None"
  by (simp add: find_pos_None_iff pending_for_def)

lemma approve_request_state_error:
  "fst (approve_request roles cdoc now db i u bc) = Inl StateError \<longleftrightarrow>
     (\<exists>e. db i = Some e \<and> currentApprover e = Some u \<and>
          \<not> (\<exists>s\<in>set (approvalFlow e). approver s = u \<and> status s = StepPending))"
  unfolding pending_step_iff
  by (auto simp: approve_request_def Let_def split: option.splits if_splits)









section \<open>Chain builder and expense routes: properties\<close>

lemma findById_uid: "findById users m = Some mgr \<Longrightarrow> uid mgr = m"
  by (auto simp: findById_def find_Some_iff)

lemma threshold_block_empty:
  assumes "threshold_block reached candidate (flow, cur, n) = (flow', cur', n')"
      and "flow = [] \<longrightarrow> cur = None" and "flow' = []"
  shows "flow = [] \<and> cur' = None"
  using assms by (auto simp: threshold_block_def split: if_splits option.splits)

lemma manager_block_empty:
  "fst (manager_block users usr) = [] \<longrightarrow> snd (manager_block users usr) = None"
  by (simp add: manager_block_def split: option.splits)

lemma chain_before_fallback_unfold:
  "chain_before_fallback users amt usr cdoc =
     (case threshold_block (amt \<ge> directorApproval (thresholds (settings cdoc)))
             (findOne (admin_query cdoc) users)
             (threshold_block (amt \<ge> financeApproval (thresholds (settings cdoc)))
                (findOne (finance_query cdoc) users)
                (fst (manager_block users usr), snd (manager_block users usr),
                 length (fst (manager_block users usr)) + 1)) of
        (flow3, cur3, ord3) \<Rightarrow> (flow3, cur3))"
  by (simp add: chain_before_fallback_def Let_def split: prod.splits)

lemma chain_before_fallback_empty:
  assumes "fst (chain_before_fallback users amt usr cdoc) = []"
  shows "chain_before_fallback users amt usr cdoc = ([], None)"
proof -
  obtain flow1 cur1 where m: "manager_block users usr = (flow1, cur1)"
    by (cases "manager_block users usr")
  let ?thr = "thresholds (settings cdoc)"
  obtain flow2 cur2 n2 where f: "threshold_block (amt \<ge> financeApproval ?thr)
      (findOne (finance_query cdoc) users) (flow1, cur1, length flow1 + 1) = (flow2, cur2, n2)"
    by (metis prod_cases3)
  obtain flow3 cur3 n3 where d: "threshold_block (amt \<ge> directorApproval ?thr)
      (findOne (admin_query cdoc) users) (flow2, cur2, n2) = (flow3, cur3, n3)"
    by (metis prod_cases3)
  have res: "chain_before_fallback users amt usr cdoc = (flow3, cur3)"
    unfolding chain_before_fallback_unfold m fst_conv snd_conv f d by simp
  with assms have e3: "flow3 = []" by simp
  have i1: "flow1 = [] \<longrightarrow> cur1 = None"
    using manager_block_empty [of users usr] by (simp add: m)
  have i2: "flow2 = [] \<longrightarrow> cur2 = None"
    using threshold_block_empty [OF f i1] by blast
  from threshold_block_empty [OF d i2 e3] have "cur3 = None" by simp
  with res e3 show ?thesis by simp
qed

text \<open>
  C5. The chain builder example: the employee's manager is set and resolves,
  \<open>isManagerApprover\<close> is true, the converted amount is 6000 with thresholds 5000
  (finance) and 10000 (director), and the finance lookup returns a user other than the
  manager. The built chain is the manager at order 1 and the finance approver at order 2,
  both pending, and the current approver is the manager.
\<close>

theorem setupApprovalFlow_example:
  assumes mgr: "manager usr = Some m" "isManagerApprover usr" "findById users m = Some mgr"
      and amt: "convertedAmount e = 6000"
      and thr: "financeApproval (thresholds (settings cdoc)) = 5000"
               "directorApproval (thresholds (settings cdoc)) = 10000"
      and fin: "findOne (finance_query cdoc) users = Some fin" "uid fin \<noteq> uid mgr"
  shows "approvalFlow (setupApprovalFlow users e usr cdoc) =
           [\<lparr>approver = m, order = 1, status = StepPending, comments = None, timestamp = None\<rparr>,
            \<lparr>approver = uid fin, order = 2, status = StepPending, comments = None,
              timestamp = None\<rparr>]
         \<and> currentApprover (setupApprovalFlow users e usr cdoc) = Some m
         \<and> uid mgr = m"
proof -
  have u: "uid mgr = m" by (rule findById_uid [OF mgr(3)])
  have mb: "manager_block users usr = ([new_step m 1], Some m)"
    using mgr u by (simp add: manager_block_def)
  have fb: "threshold_block (convertedAmount e \<ge> financeApproval (thresholds (settings cdoc)))
              (findOne (finance_query cdoc) users)
              ([new_step m 1], Some m, length [new_step m 1] + 1)
            = ([new_step m 1, new_step (uid fin) 2], Some m, 3)"
    using amt thr fin u by (simp add: threshold_block_def numeral_2_eq_2 numeral_3_eq_3)
  have db: "threshold_block (convertedAmount e \<ge> directorApproval (thresholds (settings cdoc)))
              cand ([new_step m 1, new_step (uid fin) 2], Some m, 3)
            = ([new_step m 1, new_step (uid fin) 2], Some m, 3)" for cand
    using amt thr by (simp add: threshold_block_def)
  have "chain_before_fallback users (convertedAmount e) usr cdoc
          = ([new_step m 1, new_step (uid fin) 2], Some m)"
    unfolding chain_before_fallback_unfold mb fst_conv snd_conv fb db by simp
  then have "setupApprovalFlow users e usr cdoc =
          e\<lparr>approvalFlow := [new_step m 1, new_step (uid fin) 2], currentApprover := Some m\<rparr>"
    by (simp add: setupApprovalFlow_def)
  then show ?thesis using u by (simp add: new_step_def)
qed

theorem setupApprovalFlow_example_witness:
  "manager employee_u = Some 20 \<and> isManagerApprover employee_u \<and>
   findById staff 20 = Some lead_u \<and> convertedAmount trip = 6000 \<and>
   financeApproval (thresholds (settings acme)) = 5000 \<and>
   directorApproval (thresholds (settings acme)) = 10000 \<and>
   findOne (finance_query acme) staff = Some finance_u \<and> uid finance_u \<noteq> uid lead_u \<and>
   approvalFlow (setupApprovalFlow staff trip employee_u acme) =
           [\<lparr>approver = 20, order = 1, status = StepPending, comments = None, timestamp = None\<rparr>,
            \<lparr>approver = uid finance_u, order = 2, status = StepPending, comments = None,
              timestamp = None\<rparr>]
   \<and> currentApprover (setupApprovalFlow staff trip employee_u acme) = Some 20
   \<and> uid lead_u = 20"
proof -
  have a: "manager employee_u = Some 20" by (simp add: employee_u_def)
  have b: "isManagerApprover employee_u" by (simp add: employee_u_def)
  have c: "findById staff 20 = Some lead_u" by (simp add: example_defs)
  have d: "convertedAmount trip = 6000" by (simp add: trip_def)
  have f: "financeApproval (thresholds (settings acme)) = 5000" by (simp add: example_defs)
  have g: "directorApproval (thresholds (settings acme)) = 10000" by (simp add: example_defs)
  have h: "findOne (finance_query acme) staff = Some finance_u"
    by (simp add: findOne_def finance_query_def example_defs)
  have i: "uid finance_u \<noteq> uid lead_u" by (simp add: example_defs)
  show ?thesis
    by (intro conjI a b c d f g h i setupApprovalFlow_example [OF a b c d f g h i, THEN conjunct1]
          setupApprovalFlow_example [OF a b c d f g h i, THEN conjunct2, THEN conjunct1]
          setupApprovalFlow_example [OF a b c d f g h i, THEN conjunct2, THEN conjunct2])
qed

lemmas create_defs =
  create_expense_def create_valid_def convertCurrency_def setupApprovalFlow_def chain_before_fallback_def
  manager_block_def threshold_block_def findOne_def finance_query_def admin_query_def
  save_valid_def categories_def trim_def is_space_def lunch_body_def no_rates_def

lemma create_lunch:
  "create_expense no_rates staff (Some acme_cfo) employee_u lunch_body = Inr lunch"
  by (simp add: create_defs example_defs)

lemma create_orphan:
  "create_expense no_rates [loner_u] (Some startup) loner_u lunch_body = Inr orphan"
  by (simp add: create_defs example_defs orphan_def startup_def loner_u_def)

text \<open>
  C7, amended. When the manager, finance and director blocks produce no step and no
  admin user is found for the fallback, \<open>setupApprovalFlow\<close> raises nothing: a creation
  request that is valid otherwise succeeds and saves the expense at status Pending with
  an empty approval flow and no current approver.
\<close>

theorem create_without_approver:
  assumes amt: "b_amount body = Some amt" "0 \<le> amt"
      and date: "b_expenseDate body = Some d"
      and fields: "b_originalCurrency body \<noteq> []" "b_category body \<in> set categories"
                  "trim (b_description body) \<noteq> []"
      and conv: "convertCurrency rates amt (b_originalCurrency body) (currency cdoc) = Some conv"
      and no_step: "fst (chain_before_fallback users conv usr cdoc) = []"
      and no_admin: "findOne (admin_query cdoc) users = None"
  shows "\<exists>e. create_expense rates users (Some cdoc) usr body = Inr e \<and>
              approvalFlow e = [] \<and> currentApprover e = None \<and> exp_status e = Pending"
proof -
  have descr: "b_description body \<noteq> []"
    using fields(3) by (auto simp: trim_def)
  have chain: "chain_before_fallback users conv usr cdoc = ([], None)"
    by (rule chain_before_fallback_empty [OF no_step])
  let ?e = "\<lparr>employee = uid usr, company = cid cdoc, amount = amt,
             originalCurrency = b_originalCurrency body,
             convertedAmount = conv, companyCurrency = currency cdoc,
             category = b_category body, description = trim (b_description body),
             expenseDate = d, exp_status = Pending,
             currentApprover = None, approvalHistory = [], approvalFlow = []\<rparr>"
  have built: "setupApprovalFlow users ?e usr cdoc = ?e"
    by (simp add: setupApprovalFlow_def chain no_admin)
  have "create_expense rates users (Some cdoc) usr body = Inr ?e"
    using amt date fields descr conv
    by (simp add: create_expense_def create_valid_def built save_valid_def)
  then show ?thesis by simp
qed

theorem create_without_approver_witness:
  "b_amount lunch_body = Some 100 \<and> (0::real) \<le> 100 \<and> b_expenseDate lunch_body = Some 100 \<and>
   b_originalCurrency lunch_body \<noteq> [] \<and> b_category lunch_body \<in> set categories \<and>
   trim (b_description lunch_body) \<noteq> [] \<and>
   convertCurrency no_rates 100 (b_originalCurrency lunch_body) (currency startup) = Some 100 \<and>
   fst (chain_before_fallback [loner_u] 100 loner_u startup) = [] \<and>
   findOne (admin_query startup) [loner_u] = None \<and>
   (\<exists>e. create_expense no_rates [loner_u] (Some startup) loner_u lunch_body = Inr e \<and>
        approvalFlow e = [] \<and> currentApprover e = None \<and> exp_status e = Pending)"
proof -
  have a: "b_amount lunch_body = Some 100" "(0::real) \<le> 100" by (simp_all add: lunch_body_def)
  have b: "b_expenseDate lunch_body = Some 100" by (simp add: lunch_body_def)
  have c: "b_originalCurrency lunch_body \<noteq> []" "b_category lunch_body \<in> set categories"
    "trim (b_description lunch_body) \<noteq> []"
    by (simp_all add: lunch_body_def categories_def trim_def is_space_def)
  have d: "convertCurrency no_rates 100 (b_originalCurrency lunch_body) (currency startup) = Some 100"
    by (simp add: create_defs example_defs startup_def)
  have f: "fst (chain_before_fallback [loner_u] 100 loner_u startup) = []"
    by (simp add: create_defs example_defs startup_def loner_u_def)
  have g: "findOne (admin_query startup) [loner_u] = None"
    by (simp add: create_defs example_defs startup_def loner_u_def)
  show ?thesis
    by (intro conjI a b c d f g create_without_approver [OF a b c d f g])
qed

text \<open>
  C7 as stated fails: in a company whose User collection holds no admin, the expense of
  an employee without manager is created and saved with an empty approval flow.
\<close>

theorem create_without_admin_counterexample:
  "fst (chain_before_fallback [loner_u] 100 loner_u startup) = [] \<and>
   findOne (admin_query startup) [loner_u] = None \<and>
   create_expense no_rates [loner_u] (Some startup) loner_u lunch_body = Inr orphan \<and>
   approvalFlow orphan = [] \<and> currentApprover orphan = None \<and> exp_status orphan = Pending"
  by (simp add: create_orphan)
     (simp add: create_defs example_defs startup_def loner_u_def orphan_def)

text \<open>
  C10. Frame of the update: a successful \<open>PUT /api/expenses/:id\<close> is an update of a
  pending expense and changes at most amount, convertedAmount, category, description and
  expenseDate; approvalFlow, currentApprover, status and approvalHistory are those of the
  stored expense. The witness raises a 100 USD expense to 6000 USD, across the finance
  threshold: the flow keeps its single step, while \<open>setupApprovalFlow\<close> on the updated
  expense would build two.
\<close>

theorem update_keeps_chain:
  assumes "update_expense rates company_found (Some e) usr body = Inr e'"
  shows "e' = e\<lparr>amount := amount e', convertedAmount := convertedAmount e',
                category := category e', description := description e',
                expenseDate := expenseDate e'\<rparr>
         \<and> approvalFlow e' = approvalFlow e \<and> currentApprover e' = currentApprover e
         \<and> exp_status e' = exp_status e \<and> approvalHistory e' = approvalHistory e
         \<and> exp_status e = Pending"
proof -
  from assms obtain e1 where
    e1: "update_amount rates company_found (ub_amount body) e = Some e1"
    and pend: "exp_status e = Pending"
    and e': "e' = (let e2 = (case ub_category body of None \<Rightarrow> e1 | Some c \<Rightarrow> e1\<lparr>category := c\<rparr>);
                     e3 = (case ub_description body of
                             None \<Rightarrow> e2 | Some d \<Rightarrow> e2\<lparr>description := trim d\<rparr>);
                     e4 = (case ub_expenseDate body of
                             Given d \<Rightarrow> e3\<lparr>expenseDate := d\<rparr> | _ \<Rightarrow> e3)
                 in e4)"
    by (auto simp: update_expense_def Let_def split: if_splits option.splits)
  define a where "a = amount e1"
  define cv where "cv = convertedAmount e1"
  have e1': "e1 = e\<lparr>amount := a, convertedAmount := cv\<rparr>"
    using e1 unfolding a_def cv_def
    by (auto simp: update_amount_def split: option.splits if_splits)
  have "e' = e\<lparr>amount := amount e', convertedAmount := convertedAmount e',
                category := category e', description := description e',
                expenseDate := expenseDate e'\<rparr>"
    unfolding e' e1' Let_def
    by (cases "ub_category body"; cases "ub_description body"; cases "ub_expenseDate body")
       (auto intro!: expense.equality)
  moreover have "approvalFlow e' = approvalFlow e \<and> currentApprover e' = currentApprover e
         \<and> exp_status e' = exp_status e \<and> approvalHistory e' = approvalHistory e"
    unfolding e' e1' Let_def
    by (cases "ub_category body"; cases "ub_description body"; cases "ub_expenseDate body")
       simp_all
  ultimately have "e' = e\<lparr>amount := amount e', convertedAmount := convertedAmount e',
                category := category e', description := description e',
                expenseDate := expenseDate e'\<rparr>
         \<and> approvalFlow e' = approvalFlow e \<and> currentApprover e' = currentApprover e
         \<and> exp_status e' = exp_status e \<and> approvalHistory e' = approvalHistory e" by (rule conjI)
  with pend show ?thesis by (simp only: simp_thms)
qed

lemma update_lunch:
  "update_expense no_rates (Some acme) (Some lunch) employee_u raise_body = Inr lunch_raised"
  by (simp add: update_expense_def update_valid_def update_amount_def convertCurrency_def
        save_valid_def raise_body_def lunch_raised_def example_defs)

theorem update_keeps_chain_witness:
  "update_expense no_rates (Some acme) (Some lunch) employee_u raise_body = Inr lunch_raised \<and>
   lunch_raised = lunch\<lparr>amount := amount lunch_raised,
                convertedAmount := convertedAmount lunch_raised,
                category := category lunch_raised, description := description lunch_raised,
                expenseDate := expenseDate lunch_raised\<rparr> \<and>
   approvalFlow lunch_raised = approvalFlow lunch \<and>
   currentApprover lunch_raised = currentApprover lunch \<and>
   exp_status lunch_raised = exp_status lunch \<and>
   approvalHistory lunch_raised = approvalHistory lunch \<and>
   exp_status lunch = Pending \<and>
   convertedAmount lunch < financeApproval (thresholds (settings acme)) \<and>
   financeApproval (thresholds (settings acme)) \<le> convertedAmount lunch_raised \<and>
   approvalFlow lunch_raised = [new_step 20 1] \<and>
   approvalFlow (setupApprovalFlow staff lunch_raised employee_u acme)
     = [new_step 20 1, new_step 30 2]"
proof -
  have crossing: "convertedAmount lunch < financeApproval (thresholds (settings acme))"
    "financeApproval (thresholds (settings acme)) \<le> convertedAmount lunch_raised"
    "approvalFlow lunch_raised = [new_step 20 1]"
    by (simp_all add: lunch_raised_def example_defs)
  have rebuilt: "approvalFlow (setupApprovalFlow staff lunch_raised employee_u acme)
     = [new_step 20 1, new_step 30 2]"
    by (simp add: create_defs lunch_raised_def example_defs)
  show ?thesis
    by (intro conjI update_lunch crossing rebuilt
          update_keeps_chain [OF update_lunch, THEN conjunct1]
          update_keeps_chain [OF update_lunch, THEN conjunct2, THEN conjunct1]
          update_keeps_chain [OF update_lunch, THEN conjunct2, THEN conjunct2, THEN conjunct1]
          update_keeps_chain [OF update_lunch, THEN conjunct2, THEN conjunct2, THEN conjunct2,
            THEN conjunct1]
          update_keeps_chain [OF update_lunch, THEN conjunct2, THEN conjunct2, THEN conjunct2,
            THEN conjunct2, THEN conjunct1]
          update_keeps_chain [OF update_lunch, THEN conjunct2, THEN conjunct2, THEN conjunct2,
            THEN conjunct2, THEN conjunct2])
qed

text \<open>
  C6. The invariant of \<open>currentApprover\<close> does not hold in every reachable state. With
  the specific approver rule enabled for the role CFO, the employee creates a 100 USD
  expense (flow: the team lead), and the team lead approves it. The saved expense is
  Pending, its current approver is still the team lead, and no step of the flow is
  pending for the team lead; a further approval by the team lead is refused.
\<close>

theorem stuck_after_sole_approval:
  "create_expense no_rates staff (Some acme_cfo) employee_u lunch_body = Inr lunch \<and>
   approve_expense (roles_of staff) acme_cfo 7 (Some lunch) 20 None = Inr lunch_stuck \<and>
   exp_status lunch_stuck = Pending \<and>
   currentApprover lunch_stuck = Some 20 \<and>
   filter (pending_for 20) (approvalFlow lunch_stuck) = [] \<and>
   approve_expense (roles_of staff) acme_cfo 8 (Some lunch_stuck) 20 None = Inl StateError"
  by (simp add: create_lunch approve_lunch_cfo)
     (simp add: approve_expense_def pending_for_def example_defs)

section \<open>Orders of a built chain\<close>

lemma threshold_block_orders:
  assumes "threshold_block reached candidate (flow, cur, n) = (flow', cur', n')"
      and "sorted_wrt (<) (map order flow)" and "\<forall>s\<in>set flow. order s < n"
  shows "sorted_wrt (<) (map order flow') \<and> (\<forall>s\<in>set flow'. order s < n')"
  using assms
  by (auto simp: threshold_block_def new_step_def sorted_wrt_append less_Suc_eq
           split: if_splits option.splits)

text \<open>
  The orders of a chain built by \<open>setupApprovalFlow\<close> increase strictly along the flow,
  and a successful approve or reject request keeps the orders of the flow.
\<close>

lemma setupApprovalFlow_orders:
  "sorted_wrt (<) (map order (approvalFlow (setupApprovalFlow users e usr cdoc)))"
proof -
  obtain flow1 cur1 where m: "manager_block users usr = (flow1, cur1)"
    by (cases "manager_block users usr")
  let ?thr = "thresholds (settings cdoc)"
  let ?amt = "convertedAmount e"
  obtain flow2 cur2 n2 where f: "threshold_block (?amt \<ge> financeApproval ?thr)
      (findOne (finance_query cdoc) users) (flow1, cur1, length flow1 + 1) = (flow2, cur2, n2)"
    by (metis prod_cases3)
  obtain flow3 cur3 n3 where d: "threshold_block (?amt \<ge> directorApproval ?thr)
      (findOne (admin_query cdoc) users) (flow2, cur2, n2) = (flow3, cur3, n3)"
    by (metis prod_cases3)
  have res: "chain_before_fallback users ?amt usr cdoc = (flow3, cur3)"
    unfolding chain_before_fallback_unfold m fst_conv snd_conv f d by simp
  have s1: "sorted_wrt (<) (map order flow1) \<and> (\<forall>s\<in>set flow1. order s < length flow1 + 1)"
    using m by (auto simp: manager_block_def new_step_def split: option.splits if_splits)
  have s2: "sorted_wrt (<) (map order flow2) \<and> (\<forall>s\<in>set flow2. order s < n2)"
    using threshold_block_orders [OF f] s1 by blast
  have s3: "sorted_wrt (<) (map order flow3)"
    using threshold_block_orders [OF d] s2 by blast
  show ?thesis
    using s3 by (auto simp: setupApprovalFlow_def res new_step_def split: option.splits)
qed

lemma approve_expense_orders:
  assumes "approve_expense roles cdoc now (Some e) u bc = Inr e'"
  shows "map order (approvalFlow e') = map order (approvalFlow e)"
  using assms
  by (auto simp: approve_expense_def approvalFlow_approve_step map_order_update
           split: option.splits if_splits)

lemma reject_expense_orders:
  assumes "reject_expense now (Some e) u bc = Inr e'"
  shows "map order (approvalFlow e') = map order (approvalFlow e)"
  using assms
  by (auto simp: reject_expense_def map_order_update split: option.splits if_splits)

end
